theory Spec2Isabelle
  imports Complex_Main "HOL-Library.Monad_Syntax" "HOL-Library.Sublist"
begin

section \<open>JavaScript values\<close>

subsection \<open>Numbers\<close>

text \<open>
  A TypeScript \<^verbatim>\<open>number\<close> is an IEEE double. The model keeps the three special
  values apart and takes the finite ones as exact reals: rounding and overflow of
  double arithmetic are not modelled, and \<^verbatim>\<open>-0\<close> is identified with \<^verbatim>\<open>0\<close>.
\<close>

datatype number = Fin real | NaN | PInf | NInf

fun isFinite :: "number \<Rightarrow> bool" where
  "isFinite (Fin r) = True"
| "isFinite _ = False"

fun isNaN :: "number \<Rightarrow> bool" where
  "isNaN NaN = True"
| "isNaN _ = False"

text \<open>\<^verbatim>\<open>x < y\<close>, \<^verbatim>\<open>x > y\<close> and \<^verbatim>\<open>x === y\<close>: every comparison with NaN is false.\<close>

fun nlt :: "number \<Rightarrow> number \<Rightarrow> bool" where
  "nlt (Fin a) (Fin b) = (a < b)"
| "nlt NaN _ = False"
| "nlt _ NaN = False"
| "nlt NInf (Fin b) = True"
| "nlt NInf PInf = True"
| "nlt (Fin a) PInf = True"
| "nlt _ _ = False"

definition ngt :: "number \<Rightarrow> number \<Rightarrow> bool" where
  "ngt x y = nlt y x"

definition neq :: "number \<Rightarrow> number \<Rightarrow> bool" where
  "neq x y = (x = y \<and> x \<noteq> NaN)"

fun nneg :: "number \<Rightarrow> number" where
  "nneg (Fin a) = Fin (- a)"
| "nneg NaN = NaN"
| "nneg PInf = NInf"
| "nneg NInf = PInf"

fun nadd :: "number \<Rightarrow> number \<Rightarrow> number" where
  "nadd (Fin a) (Fin b) = Fin (a + b)"
| "nadd NaN _ = NaN"
| "nadd _ NaN = NaN"
| "nadd PInf NInf = NaN"
| "nadd NInf PInf = NaN"
| "nadd PInf _ = PInf"
| "nadd NInf _ = NInf"
| "nadd (Fin a) y = y"

definition nsub :: "number \<Rightarrow> number \<Rightarrow> number" where
  "nsub x y = nadd x (nneg y)"

text \<open>The sign of a product or quotient with an infinite operand.\<close>

definition signedInf :: "bool \<Rightarrow> number" where
  "signedInf negative = (if negative then NInf else PInf)"

fun nmul :: "number \<Rightarrow> number \<Rightarrow> number" where
  "nmul (Fin a) (Fin b) = Fin (a * b)"
| "nmul NaN _ = NaN"
| "nmul _ NaN = NaN"
| "nmul (Fin a) PInf = (if a = 0 then NaN else signedInf (a < 0))"
| "nmul (Fin a) NInf = (if a = 0 then NaN else signedInf (0 < a))"
| "nmul PInf (Fin b) = (if b = 0 then NaN else signedInf (b < 0))"
| "nmul NInf (Fin b) = (if b = 0 then NaN else signedInf (0 < b))"
| "nmul PInf PInf = PInf"
| "nmul NInf NInf = PInf"
| "nmul PInf NInf = NInf"
| "nmul NInf PInf = NInf"

fun ndiv :: "number \<Rightarrow> number \<Rightarrow> number" where
  "ndiv (Fin a) (Fin b) =
     (if b = 0 then (if a = 0 then NaN else signedInf (a < 0)) else Fin (a / b))"
| "ndiv NaN _ = NaN"
| "ndiv _ NaN = NaN"
| "ndiv (Fin a) _ = Fin 0"
| "ndiv PInf (Fin b) = signedInf (b < 0)"
| "ndiv NInf (Fin b) = signedInf (0 \<le> b)"
| "ndiv _ _ = NaN"

text \<open>\<^verbatim>\<open>x % y\<close>: the remainder has the sign of the dividend.\<close>

definition Math_trunc :: "real \<Rightarrow> int" where
  "Math_trunc q = (if q < 0 then - \<lfloor>- q\<rfloor> else \<lfloor>q\<rfloor>)"

fun nmod :: "number \<Rightarrow> number \<Rightarrow> number" where
  "nmod (Fin a) (Fin b) = (if b = 0 then NaN else Fin (a - b * of_int (Math_trunc (a / b))))"
| "nmod (Fin a) PInf = Fin a"
| "nmod (Fin a) NInf = Fin a"
| "nmod _ _ = NaN"

fun Math_floor :: "number \<Rightarrow> number" where
  "Math_floor (Fin a) = Fin (of_int \<lfloor>a\<rfloor>)"
| "Math_floor x = x"

fun Math_sqrt :: "number \<Rightarrow> number" where
  "Math_sqrt (Fin a) = (if a < 0 then NaN else Fin (sqrt a))"
| "Math_sqrt PInf = PInf"
| "Math_sqrt _ = NaN"

fun Math_exp :: "number \<Rightarrow> number" where
  "Math_exp (Fin a) = Fin (exp a)"
| "Math_exp PInf = PInf"
| "Math_exp NInf = Fin 0"
| "Math_exp NaN = NaN"

text \<open>\<^verbatim>\<open>Math.round\<close> of a finite number rounds halves up.\<close>

definition Math_round :: "real \<Rightarrow> int" where
  "Math_round r = \<lfloor>r + 1 / 2\<rfloor>"

fun Number_isInteger :: "number \<Rightarrow> bool" where
  "Number_isInteger (Fin a) = (of_int \<lfloor>a\<rfloor> = a)"
| "Number_isInteger _ = False"

subsection \<open>Strings\<close>

text \<open>
  A JavaScript string is a sequence of UTF-16 code units. The source handles
  characters outside ASCII (\<^verbatim>\<open>U+00D7\<close>, \<^verbatim>\<open>U+00F7\<close>, \<^verbatim>\<open>U+00B2\<close>, \<^verbatim>\<open>U+03C0\<close>), so a
  string is a list of code units, and \<open>js\<close> embeds an ASCII literal.
\<close>

type_synonym jstring = "nat list"

definition js :: "string \<Rightarrow> jstring" where
  "js s = map of_char s"

definition isDigit :: "nat \<Rightarrow> bool" where
  "isDigit c = (48 \<le> c \<and> c \<le> 57)"

definition isLetter :: "nat \<Rightarrow> bool" where
  "isLetter c = ((65 \<le> c \<and> c \<le> 90) \<or> (97 \<le> c \<and> c \<le> 122))"

text \<open>The characters of the regular expression class \<^verbatim>\<open>\s\<close>, which \<^verbatim>\<open>trim\<close> strips too.\<close>

definition isSpace :: "nat \<Rightarrow> bool" where
  "isSpace c = (c \<in> {9, 10, 11, 12, 13, 32, 160, 5760, 8232, 8233, 8239, 8287, 12288, 65279}
     \<or> (8192 \<le> c \<and> c \<le> 8202))"

definition trim :: "jstring \<Rightarrow> jstring" where
  "trim s = rev (dropWhile isSpace (rev (dropWhile isSpace s)))"

subsection \<open>Numbers as strings\<close>

function showNat :: "nat \<Rightarrow> jstring" where
  "showNat n = (if n < 10 then [48 + n] else showNat (n div 10) @ [48 + n mod 10])"
  by pat_completeness auto
termination
  by (relation "measure id") auto

declare showNat.simps [simp del]

definition stripTrailingZeros :: "jstring \<Rightarrow> jstring" where
  "stripTrailingZeros s = rev (dropWhile (\<lambda>c. c = 48) (rev s))"

text \<open>
  \<^verbatim>\<open>String(n)\<close> for an integer-valued number \<open>n\<close>: plain decimal digits below
  \<open>10^21\<close>, and from there on exponent notation, \<^verbatim>\<open>d.ddde+x\<close> with the trailing zeros of
  the mantissa dropped (the digits are those of the exact value).
\<close>

definition showMagnitude :: "nat \<Rightarrow> jstring" where
  "showMagnitude n =
     (if n < 10 ^ 21 then showNat n
      else (let ds = showNat n; m = stripTrailingZeros (tl ds)
            in hd ds # (if m = [] then [] else 46 # m) @ js ''e+'' @ showNat (length ds - 1)))"

definition String_int :: "int \<Rightarrow> jstring" where
  "String_int i = (if i < 0 then 45 # showMagnitude (nat (- i)) else showMagnitude (nat i))"


text \<open>
  \<^verbatim>\<open>num.toFixed(6)\<close>: the sign, then the magnitude rounded to a multiple of \<open>10^-6\<close>
  (the larger one on a tie), with exactly six fractional digits.
\<close>

definition pad6 :: "jstring \<Rightarrow> jstring" where
  "pad6 s = replicate (6 - length s) 48 @ s"

definition toFixed6 :: "real \<Rightarrow> jstring" where
  "toFixed6 r =
     (let m = nat \<lfloor>\<bar>r\<bar> * 10 ^ 6 + 1 / 2\<rfloor>
      in (if r < 0 then [45] else []) @ showNat (m div 10 ^ 6) @ [46] @ pad6 (showNat (m mod 10 ^ 6)))"

text \<open>
  \<^verbatim>\<open>parseFloat(s).toString()\<close> on the output of \<^verbatim>\<open>toFixed\<close>: the number read back
  is printed in its shortest form, which drops the trailing zeros of the fraction, the
  point of an empty fraction and the sign of a zero.
\<close>

definition parseFloat_toString :: "jstring \<Rightarrow> jstring" where
  "parseFloat_toString s =
     (let negative = (s \<noteq> [] \<and> hd s = 45);
          body = (if negative then tl s else s);
          ip = takeWhile (\<lambda>c. c \<noteq> 46) body;
          fp = stripTrailingZeros (drop 1 (dropWhile (\<lambda>c. c \<noteq> 46) body))
      in (if negative \<and> (ip \<noteq> [48] \<or> fp \<noteq> []) then [45] else [])
         @ ip @ (if fp = [] then [] else 46 # fp))"

text \<open>
  \<^verbatim>\<open>String(x)\<close> and \<^verbatim>\<open>${x}\<close> on a number. A finite number that is no integer is
  printed with its fractional digits, of which the model keeps six: that is exact for the
  numbers the callers modelled here pass (integers, and the exponent \<^verbatim>\<open>0.5\<close>).
\<close>

fun String_number :: "number \<Rightarrow> jstring" where
  "String_number (Fin r) =
     (if of_int \<lfloor>r\<rfloor> = r then String_int \<lfloor>r\<rfloor> else parseFloat_toString (toFixed6 r))"
| "String_number NaN = js ''NaN''"
| "String_number PInf = js ''Infinity''"
| "String_number NInf = js ''-Infinity''"

section \<open>The calculator component\<close>

subsection \<open>formatNumber\<close>

definition formatNumber :: "number \<Rightarrow> jstring" where
  "formatNumber num =
     (case num of
        Fin r \<Rightarrow>
          if \<bar>of_int (Math_round r) - r\<bar> < 1 / 10 ^ 12 then String_int (Math_round r)
          else parseFloat_toString (toFixed6 r)
      | _ \<Rightarrow> js ''NaN'')"

lemma formatNumber_4: "formatNumber (Fin 4) = js ''4''"
  by (simp add: formatNumber_def Math_round_def String_int_def showMagnitude_def showNat.simps js_def)

subsection \<open>sanitizeExpressionForEval\<close>

text \<open>
  \<^verbatim>\<open>s.replace(/re/g, ...)\<close> scans the string from the left: where the expression
  matches, the match is replaced and the scan goes on behind it; elsewhere one code unit
  is copied. A matcher returns the number of code units it consumed (at least one) and
  the replacement.
\<close>

function replaceAll :: "(jstring \<Rightarrow> (nat \<times> jstring) option) \<Rightarrow> jstring \<Rightarrow> jstring" where
  "replaceAll m [] = []"
| "replaceAll m (c # cs) =
     (case m (c # cs) of
        Some (n, rep) \<Rightarrow> rep @ replaceAll m (drop (n - 1) cs)
      | None \<Rightarrow> c # replaceAll m cs)"
  by pat_completeness auto
termination
  by (relation "measure (\<lambda>(m, s). length s)") auto

text \<open>\<^verbatim>\<open>/(\d)\s*([a-zA-Z\<pi>(])/\<close>, replaced by \<^verbatim>\<open>${a}*${b}\<close>.\<close>

definition matchImplicitMul :: "jstring \<Rightarrow> (nat \<times> jstring) option" where
  "matchImplicitMul s =
     (case s of
        [] \<Rightarrow> None
      | a # rest \<Rightarrow>
          if isDigit a then
            (case dropWhile isSpace rest of
               [] \<Rightarrow> None
             | b # _ \<Rightarrow>
                 if isLetter b \<or> b = 960 \<or> b = 40
                 then Some (length (takeWhile isSpace rest) + 2, [a, 42, b])
                 else None)
          else None)"

text \<open>\<^verbatim>\<open>/\)\s*\(/\<close>, replaced by \<^verbatim>\<open>)*(\<close>.\<close>

definition matchParens :: "jstring \<Rightarrow> (nat \<times> jstring) option" where
  "matchParens s =
     (case s of
        [] \<Rightarrow> None
      | a # rest \<Rightarrow>
          if a = 41 then
            (case dropWhile isSpace rest of
               [] \<Rightarrow> None
             | b # _ \<Rightarrow>
                 if b = 40 then Some (length (takeWhile isSpace rest) + 2, js '')*('')
                 else None)
          else None)"

text \<open>
  \<^verbatim>\<open>/(\d+(\.\d+)?)%/\<close>, replaced by \<^verbatim>\<open>($1/100)\<close>. Both digit runs are followed by
  a character that is no digit, so only the longest runs can match.
\<close>

definition matchPercent :: "jstring \<Rightarrow> (nat \<times> jstring) option" where
  "matchPercent s =
     (let ds = takeWhile isDigit s; rest = dropWhile isDigit s
      in if ds = [] then None
         else
           (let fs = takeWhile isDigit (drop 1 rest); rest' = dropWhile isDigit (drop 1 rest)
            in if rest \<noteq> [] \<and> hd rest = 46 \<and> fs \<noteq> [] \<and> rest' \<noteq> [] \<and> hd rest' = 37
               then Some (length ds + length fs + 2, js ''('' @ ds @ [46] @ fs @ js ''/100)'')
               else if rest \<noteq> [] \<and> hd rest = 37
               then Some (length ds + 1, js ''('' @ ds @ js ''/100)'')
               else None))"

definition replaceGlyphs :: "jstring \<Rightarrow> jstring" where
  "replaceGlyphs e = map (\<lambda>c. if c = 247 then 47 else c) (map (\<lambda>c. if c = 215 then 42 else c) e)"

definition replaceSquared :: "jstring \<Rightarrow> jstring" where
  "replaceSquared e = concat (map (\<lambda>c. if c = 178 then js ''^2'' else [c]) e)"

definition replacePi :: "jstring \<Rightarrow> jstring" where
  "replacePi e = concat (map (\<lambda>c. if c = 960 then js ''pi'' else [c]) e)"

definition sanitizeExpressionForEval :: "jstring \<Rightarrow> jstring" where
  "sanitizeExpressionForEval expr =
     (if expr = [] then expr
      else
        (let e = replaceGlyphs expr;
             e = replaceSquared e;
             e = replaceAll matchImplicitMul e;
             e = replaceAll matchParens e;
             e = replacePi e;
             e = replaceAll matchPercent e
         in e))"

subsection \<open>evaluateExpressionValue\<close>

text \<open>
  \<^verbatim>\<open>evaluate\<close> is the expression evaluator of the mathjs library. It is a parameter
  of the model: \<open>evaluate s\<close> is \<^verbatim>\<open>Number(evaluate(s))\<close>, or \<open>None\<close> when the library
  throws.
\<close>

type_synonym evaluator = "jstring \<Rightarrow> number option"

definition evaluateExpressionValue :: "evaluator \<Rightarrow> jstring \<Rightarrow> number option" where
  "evaluateExpressionValue evaluate expr =
     (case evaluate (sanitizeExpressionForEval expr) of
        None \<Rightarrow> None
      | Some num \<Rightarrow> if \<not> isFinite num \<or> isNaN num then None else Some num)"

subsection \<open>The state and its handlers\<close>

datatype AngleMode = Deg | Rad

record CalculatorState =
  input :: jstring
  result :: "jstring option"
  lastExpression :: "jstring option"
  angleMode :: AngleMode
  justComputed :: bool

definition initialState :: CalculatorState where
  "initialState = \<lparr>input = [], result = None, lastExpression = None, angleMode = Deg,
     justComputed = False\<rparr>"

definition isOperator :: "jstring \<Rightarrow> bool" where
  "isOperator v = (length v = 1 \<and> hd v \<in> {43, 45, 42, 47, 37})"

definition isDigitOrDotOrParen :: "jstring \<Rightarrow> bool" where
  "isDigitOrDotOrParen v =
     ((length v = 1 \<and> (isDigit (hd v) \<or> hd v = 46)) \<or> v = js ''('' \<or> v = js '')'')"

definition handleInput :: "jstring \<Rightarrow> CalculatorState \<Rightarrow> CalculatorState" where
  "handleInput v s =
     (if justComputed s \<and> isOperator v then
        s\<lparr>input := (case result s of Some r \<Rightarrow> r | None \<Rightarrow> input s) @ v,
          justComputed := False, result := None\<rparr>
      else if justComputed s \<and> isDigitOrDotOrParen v then
        s\<lparr>input := v, justComputed := False, result := None, lastExpression := None\<rparr>
      else
        s\<lparr>input := input s @ v, result := None, justComputed := False\<rparr>)"

definition handleClear :: "CalculatorState \<Rightarrow> CalculatorState" where
  "handleClear s = s\<lparr>input := [], result := None, lastExpression := None, justComputed := False\<rparr>"

definition handleBackspace :: "CalculatorState \<Rightarrow> CalculatorState" where
  "handleBackspace s =
     (if justComputed s
      then s\<lparr>input := [], result := None, lastExpression := None, justComputed := False\<rparr>
      else s\<lparr>input := butlast (input s)\<rparr>)"

definition ERROR_MARKER :: jstring where
  "ERROR_MARKER = [38169, 35823]"

definition handleEquals :: "evaluator \<Rightarrow> CalculatorState \<Rightarrow> CalculatorState" where
  "handleEquals evaluate s =
     (if input s = [] \<or> trim (input s) = [] then
        s\<lparr>result := None, lastExpression := None, justComputed := False\<rparr>
      else
        (let originalExpr = input s
         in case evaluateExpressionValue evaluate originalExpr of
              None \<Rightarrow>
                s\<lparr>result := Some ERROR_MARKER, lastExpression := Some originalExpr,
                  justComputed := True\<rparr>
            | Some v \<Rightarrow>
                (let formatted = formatNumber v
                 in s\<lparr>lastExpression := Some originalExpr, result := Some formatted,
                      input := formatted, justComputed := True\<rparr>)))"

definition toggleAngleMode :: "CalculatorState \<Rightarrow> CalculatorState" where
  "toggleAngleMode s = s\<lparr>angleMode := (if angleMode s = Deg then Rad else Deg)\<rparr>"

section \<open>The math utilities\<close>

text \<open>
  \<^verbatim>\<open>factorial\<close> recurses on \<^verbatim>\<open>n - 1\<close> until a test stops it. A call that never
  returns (in JavaScript the stack overflows and a \<^verbatim>\<open>RangeError\<close> is thrown) is the
  value \<open>None\<close>. The notification \<^verbatim>\<open>toast.error\<close> is not part of the result.
\<close>

partial_function (option) factorial :: "number \<Rightarrow> number option" where
  "factorial n =
     (if nlt n (Fin 0) then Some NaN
      else if neq n (Fin 0) \<or> neq n (Fin 1) then Some (Fin 1)
      else do { r \<leftarrow> factorial (nsub n (Fin 1)); Some (nmul n r) })"

definition squareRoot :: "number \<Rightarrow> number" where
  "squareRoot n = (if nlt n (Fin 0) then NaN else Math_sqrt n)"

definition reciprocal :: "number \<Rightarrow> number" where
  "reciprocal n = (if neq n (Fin 0) then NaN else ndiv (Fin 1) n)"

text \<open>\<^verbatim>\<open>Math.pow\<close> is a parameter of the model.\<close>

definition powerUtil :: "(number \<Rightarrow> number \<Rightarrow> number) \<Rightarrow> number \<Rightarrow> number \<Rightarrow> number" where
  "powerUtil Math_pow base exponent = Math_pow base exponent"

section \<open>The function buttons\<close>

definition INVALID_INPUT :: jstring where
  "INVALID_INPUT = [36755, 20837, 26080, 25928]"

definition CALC_ERROR :: jstring where
  "CALC_ERROR = [35745, 31639, 38169, 35823]"

definition NEED_NONNEG_INT :: jstring where
  "NEED_NONNEG_INT = [35831, 36755, 20837, 38750, 36127, 25972, 25968]"

definition INVALID_OR_DIV0 :: jstring where
  "INVALID_OR_DIV0 = [36755, 20837, 26080, 25928, 25110, 38500, 20197, 48]"

text \<open>
  The function passed to \<^verbatim>\<open>calculateTrigFunction\<close> may throw (\<open>None\<close>), which the
  handler catches.
\<close>

definition calculateTrigFunction ::
  "evaluator \<Rightarrow> (number \<Rightarrow> number option) \<Rightarrow> jstring option \<Rightarrow> CalculatorState \<Rightarrow> CalculatorState" where
  "calculateTrigFunction evaluate func label s =
     (case evaluateExpressionValue evaluate (input s) of
        None \<Rightarrow> s\<lparr>result := Some INVALID_INPUT, lastExpression := None, justComputed := True\<rparr>
      | Some val \<Rightarrow>
          (let angle = (if angleMode s = Deg then ndiv (nmul val (Fin pi)) (Fin 180) else val)
           in case func angle of
                Some out \<Rightarrow>
                  (let formatted = formatNumber out;
                       exprLabel = (case label of Some l \<Rightarrow> l
                                    | None \<Rightarrow> js ''f('' @ input s @ js '')'')
                   in s\<lparr>lastExpression := Some (exprLabel @ js ''('' @ input s
                                            @ (if angleMode s = Deg then [176] else []) @ js '')''),
                        result := Some formatted, input := formatted, justComputed := True\<rparr>)
              | None \<Rightarrow> s\<lparr>result := Some CALC_ERROR, justComputed := True\<rparr>))"

definition handleFactorial :: "evaluator \<Rightarrow> CalculatorState \<Rightarrow> CalculatorState" where
  "handleFactorial evaluate s =
     (case evaluateExpressionValue evaluate (input s) of
        None \<Rightarrow> s\<lparr>result := Some NEED_NONNEG_INT, justComputed := True\<rparr>
      | Some val \<Rightarrow>
          if \<not> Number_isInteger val \<or> nlt val (Fin 0)
          then s\<lparr>result := Some NEED_NONNEG_INT, justComputed := True\<rparr>
          else
            (case factorial val of
               Some out \<Rightarrow>
                 (let formatted = String_number out
                  in s\<lparr>lastExpression := Some (String_number val @ js ''!''),
                       result := Some formatted, input := formatted, justComputed := True\<rparr>)
             | None \<Rightarrow> s\<lparr>result := Some CALC_ERROR, justComputed := True\<rparr>))"

text \<open>The utilities called by the next handlers never throw, so their \<^verbatim>\<open>catch\<close> is dead.\<close>

definition handleSquareRoot :: "evaluator \<Rightarrow> CalculatorState \<Rightarrow> CalculatorState" where
  "handleSquareRoot evaluate s =
     (case evaluateExpressionValue evaluate (input s) of
        None \<Rightarrow> s\<lparr>result := Some INVALID_INPUT, justComputed := True\<rparr>
      | Some val \<Rightarrow>
          (let out = squareRoot val; formatted = formatNumber out
           in s\<lparr>lastExpression := Some (8730 # js ''('' @ input s @ js '')''),
                result := Some formatted, input := formatted, justComputed := True\<rparr>))"

definition handleReciprocal :: "evaluator \<Rightarrow> CalculatorState \<Rightarrow> CalculatorState" where
  "handleReciprocal evaluate s =
     (case evaluateExpressionValue evaluate (input s) of
        None \<Rightarrow> s\<lparr>result := Some INVALID_OR_DIV0, justComputed := True\<rparr>
      | Some val \<Rightarrow>
          if neq val (Fin 0) then s\<lparr>result := Some INVALID_OR_DIV0, justComputed := True\<rparr>
          else
            (let out = reciprocal val; formatted = formatNumber out
             in s\<lparr>lastExpression := Some (js ''1/('' @ input s @ js '')''),
                  result := Some formatted, input := formatted, justComputed := True\<rparr>))"

definition handlePower ::
  "(number \<Rightarrow> number \<Rightarrow> number) \<Rightarrow> evaluator \<Rightarrow> number \<Rightarrow> CalculatorState \<Rightarrow> CalculatorState" where
  "handlePower Math_pow evaluate exponent s =
     (case evaluateExpressionValue evaluate (input s) of
        None \<Rightarrow> s\<lparr>result := Some INVALID_INPUT, justComputed := True\<rparr>
      | Some val \<Rightarrow>
          (let out = powerUtil Math_pow val exponent; formatted = formatNumber out
           in s\<lparr>lastExpression := Some (js ''('' @ input s @ js '')^'' @ String_number exponent),
                result := Some formatted, input := formatted, justComputed := True\<rparr>))"

text \<open>The action of the exponential button, which the source leaves unnamed.\<close>

definition handleExp :: "evaluator \<Rightarrow> CalculatorState \<Rightarrow> CalculatorState" where
  "handleExp evaluate s =
     (case evaluateExpressionValue evaluate (input s) of
        None \<Rightarrow> s\<lparr>result := Some INVALID_INPUT, justComputed := True\<rparr>
      | Some val \<Rightarrow>
          (let out = Math_exp val; formatted = formatNumber out
           in s\<lparr>lastExpression := Some (js ''e^('' @ input s @ js '')''),
                result := Some formatted, input := formatted, justComputed := True\<rparr>))"

definition handleInsertPi :: "CalculatorState \<Rightarrow> CalculatorState" where
  "handleInsertPi s =
     (if justComputed s
      then s\<lparr>input := js ''pi'', justComputed := False, result := None, lastExpression := None\<rparr>
      else s\<lparr>input := input s @ js ''pi''\<rparr>)"

definition handleInsertE :: "CalculatorState \<Rightarrow> CalculatorState" where
  "handleInsertE s =
     (if justComputed s
      then s\<lparr>input := js ''e'', justComputed := False, result := None, lastExpression := None\<rparr>
      else s\<lparr>input := input s @ js ''e''\<rparr>)"

section \<open>Equation solving\<close>



section \<open>Runs of the calculator\<close>

text \<open>
  Every button is an event; a reachable state is the state after a list of events, from
  the initial state of the component.
\<close>

datatype Event =
    Input jstring
  | Clear
  | Backspace
  | Equals
  | ToggleAngleMode
  | TrigFunction "number \<Rightarrow> number option" "jstring option"
  | Factorial
  | SquareRoot
  | Reciprocal
  | Power number
  | Exp
  | InsertPi
  | InsertE

fun step :: "(number \<Rightarrow> number \<Rightarrow> number) \<Rightarrow> evaluator \<Rightarrow> CalculatorState \<Rightarrow> Event \<Rightarrow> CalculatorState" where
  "step Math_pow evaluate s (Input v) = handleInput v s"
| "step Math_pow evaluate s Clear = handleClear s"
| "step Math_pow evaluate s Backspace = handleBackspace s"
| "step Math_pow evaluate s Equals = handleEquals evaluate s"
| "step Math_pow evaluate s ToggleAngleMode = toggleAngleMode s"
| "step Math_pow evaluate s (TrigFunction func label) = calculateTrigFunction evaluate func label s"
| "step Math_pow evaluate s Factorial = handleFactorial evaluate s"
| "step Math_pow evaluate s SquareRoot = handleSquareRoot evaluate s"
| "step Math_pow evaluate s Reciprocal = handleReciprocal evaluate s"
| "step Math_pow evaluate s (Power exponent) = handlePower Math_pow evaluate exponent s"
| "step Math_pow evaluate s Exp = handleExp evaluate s"
| "step Math_pow evaluate s InsertPi = handleInsertPi s"
| "step Math_pow evaluate s InsertE = handleInsertE s"

definition run :: "(number \<Rightarrow> number \<Rightarrow> number) \<Rightarrow> evaluator \<Rightarrow> Event list \<Rightarrow> CalculatorState" where
  "run Math_pow evaluate events = foldl (step Math_pow evaluate) initialState events"

fun isEvaluation :: "Event \<Rightarrow> bool" where
  "isEvaluation Equals = True"
| "isEvaluation (TrigFunction func label) = True"
| "isEvaluation Factorial = True"
| "isEvaluation SquareRoot = True"
| "isEvaluation Reciprocal = True"
| "isEvaluation (Power exponent) = True"
| "isEvaluation Exp = True"
| "isEvaluation _ = False"

text \<open>A stand-in for the library on two expressions, for concrete runs.\<close>

definition sampleEvaluate :: evaluator where
  "sampleEvaluate e =
     (if e = js ''2+2'' then Some (Fin 4) else if e = js ''4+3'' then Some (Fin 7) else None)"

section \<open>Base conversion\<close>

text \<open>
  The \<^verbatim>\<open>while\<close> loops of \<^verbatim>\<open>decimalToBinary\<close> and \<^verbatim>\<open>decimalToHex\<close> run as long as
  \<^verbatim>\<open>n > 0\<close>; a loop that never ends is the value \<open>None\<close>. \<^verbatim>\<open>(n % 2) + binary\<close>
  prints the number in front of the string; \<^verbatim>\<open>hexDigits[i]\<close> is the character at an
  index in range, and \<^verbatim>\<open>undefined\<close> elsewhere, which the concatenation prints as such.
\<close>

partial_function (option) binaryLoop :: "number \<Rightarrow> jstring \<Rightarrow> jstring option" where
  "binaryLoop n binary =
     (if ngt n (Fin 0)
      then binaryLoop (Math_floor (ndiv n (Fin 2))) (String_number (nmod n (Fin 2)) @ binary)
      else Some binary)"

partial_function (option) decimalToBinary :: "number \<Rightarrow> jstring option" where
  "decimalToBinary num =
     (if nlt num (Fin 0) then do { s \<leftarrow> decimalToBinary (nneg num); Some (45 # s) }
      else if neq num (Fin 0) then Some (js ''0'')
      else binaryLoop (Math_floor num) [])"

definition hexDigits :: jstring where
  "hexDigits = js ''0123456789ABCDEF''"

definition charAt :: "jstring \<Rightarrow> number \<Rightarrow> jstring" where
  "charAt s i =
     (case i of
        Fin r \<Rightarrow> if of_int \<lfloor>r\<rfloor> = r \<and> 0 \<le> r \<and> nat \<lfloor>r\<rfloor> < length s then [s ! nat \<lfloor>r\<rfloor>]
                 else js ''undefined''
      | _ \<Rightarrow> js ''undefined'')"

partial_function (option) hexLoop :: "number \<Rightarrow> jstring \<Rightarrow> jstring option" where
  "hexLoop n hex =
     (if ngt n (Fin 0)
      then hexLoop (Math_floor (ndiv n (Fin 16))) (charAt hexDigits (nmod n (Fin 16)) @ hex)
      else Some hex)"

partial_function (option) decimalToHex :: "number \<Rightarrow> jstring option" where
  "decimalToHex num =
     (if nlt num (Fin 0) then do { s \<leftarrow> decimalToHex (nneg num); Some (45 # s) }
      else if neq num (Fin 0) then Some (js ''0'')
      else hexLoop (Math_floor num) [])"

text \<open>
  \<^verbatim>\<open>parseInt(s, radix)\<close> skips leading blanks, a sign and (for radix 16) a prefix
  \<^verbatim>\<open>0x\<close>, and reads the longest run of digits of the radix; without a digit it is
  \<^verbatim>\<open>NaN\<close>. The tests \<^verbatim>\<open>/^[01]+$/\<close> and \<^verbatim>\<open>/^[0-9A-Fa-f]+$/\<close> accept the non-empty
  strings over their character class.
\<close>

definition digitValue :: "nat \<Rightarrow> nat" where
  "digitValue c =
     (if 48 \<le> c \<and> c \<le> 57 then c - 48
      else if 97 \<le> c \<and> c \<le> 122 then c - 87
      else if 65 \<le> c \<and> c \<le> 90 then c - 55
      else 36)"

definition parseInt :: "jstring \<Rightarrow> nat \<Rightarrow> number" where
  "parseInt s radix =
     (let t = dropWhile isSpace s;
          negative = (t \<noteq> [] \<and> hd t = 45);
          t = (if t \<noteq> [] \<and> (hd t = 43 \<or> hd t = 45) then tl t else t);
          t = (if radix = 16 \<and> (take 2 t = js ''0x'' \<or> take 2 t = js ''0X'') then drop 2 t else t);
          ds = takeWhile (\<lambda>c. digitValue c < radix) t
      in if ds = [] then NaN
         else Fin ((if negative then - 1 else 1)
                   * of_nat (foldl (\<lambda>a c. radix * a + digitValue c) 0 ds)))"

definition binaryToDecimal :: "jstring \<Rightarrow> number" where
  "binaryToDecimal binary =
     (if \<not> (binary \<noteq> [] \<and> list_all (\<lambda>c. c = 48 \<or> c = 49) binary) then NaN
      else parseInt binary 2)"

definition hexToDecimal :: "jstring \<Rightarrow> number" where
  "hexToDecimal hex =
     (if \<not> (hex \<noteq> [] \<and> list_all (\<lambda>c. isDigit c \<or> (65 \<le> c \<and> c \<le> 70) \<or> (97 \<le> c \<and> c \<le> 102)) hex)
      then NaN
      else parseInt hex 16)"

text \<open>The digits of a natural number in a base, most significant first (none for 0).\<close>

function digitsOf :: "nat \<Rightarrow> nat \<Rightarrow> nat list" where
  "digitsOf b n = (if n = 0 \<or> b < 2 then [] else digitsOf b (n div b) @ [n mod b])"
  by pat_completeness auto
termination
  by (relation "measure (\<lambda>(b, n). n)") auto

declare digitsOf.simps [simp del]

text \<open>
  For the proofs: a string after which the percent expression cannot go on matching (its
  leading digits are followed by neither a point nor a percent sign).
\<close>

definition inert :: "jstring \<Rightarrow> bool" where
  "inert w = (case dropWhile isDigit w of [] \<Rightarrow> True | c # _ \<Rightarrow> c \<noteq> 46 \<and> c \<noteq> 37)"




section \<open>Properties\<close>

subsection \<open>A chained computation\<close>

lemmas sanitize_defs = sanitizeExpressionForEval_def js_def replaceGlyphs_def replaceSquared_def
  replacePi_def matchImplicitMul_def matchParens_def matchPercent_def isDigit_def isLetter_def
  isSpace_def

lemma sanitize_2plus2: "sanitizeExpressionForEval (js ''2+2'') = js ''2+2''"
  by (simp add: sanitize_defs)

lemma sanitize_4plus3: "sanitizeExpressionForEval (js ''4+3'') = js ''4+3''"
  by (simp add: sanitize_defs)

lemma formatNumber_7: "formatNumber (Fin 7) = js ''7''"
  by (simp add: formatNumber_def Math_round_def String_int_def showMagnitude_def showNat.simps js_def)

lemma trim_nonblank: "trim (js ''2+2'') \<noteq> []" "trim (js ''4+3'') \<noteq> []"
  by (simp_all add: trim_def js_def isSpace_def)

text \<open>
  Claim C1. From the editing state with input \<^verbatim>\<open>2+2\<close>, where the evaluator gives 4
  for \<^verbatim>\<open>2+2\<close> and 7 for \<^verbatim>\<open>4+3\<close>: Evaluate yields result \<^verbatim>\<open>4\<close>, last
  expression \<^verbatim>\<open>2+2\<close>, input \<^verbatim>\<open>4\<close> and the computed state; appending the operator
  \<^verbatim>\<open>+\<close> then yields input \<^verbatim>\<open>4+\<close> in the editing state; appending \<^verbatim>\<open>3\<close> and
  evaluating yields result \<^verbatim>\<open>7\<close>.
\<close>

theorem evaluate_chain:
  assumes e1: "evaluate (js ''2+2'') = Some (Fin 4)"
    and e2: "evaluate (js ''4+3'') = Some (Fin 7)"
    and s0: "input s0 = js ''2+2''" "\<not> justComputed s0"
  defines "s1 \<equiv> handleEquals evaluate s0"
  defines "s2 \<equiv> handleInput (js ''+'') s1"
  defines "s3 \<equiv> handleEquals evaluate (handleInput (js ''3'') s2)"
  shows "result s1 = Some (js ''4'') \<and> lastExpression s1 = Some (js ''2+2'')
       \<and> input s1 = js ''4'' \<and> justComputed s1
       \<and> input s2 = js ''4+'' \<and> \<not> justComputed s2
       \<and> result s3 = Some (js ''7'')"
proof -
  have v1: "evaluateExpressionValue evaluate (js ''2+2'') = Some (Fin 4)"
    by (simp add: evaluateExpressionValue_def sanitize_2plus2 e1)
  have v2: "evaluateExpressionValue evaluate (js ''4+3'') = Some (Fin 7)"
    by (simp add: evaluateExpressionValue_def sanitize_4plus3 e2)
  have js22: "js ''2+2'' \<noteq> []" "js ''4+3'' \<noteq> []" by (simp_all add: js_def)
  have s1: "s1 = s0\<lparr>lastExpression := Some (js ''2+2''), result := Some (js ''4''),
                   input := js ''4'', justComputed := True\<rparr>"
    unfolding s1_def handleEquals_def using s0 v1 js22 trim_nonblank
    by (simp add: formatNumber_4 Let_def)
  have op: "isOperator (js ''+'')" by (simp add: isOperator_def js_def)
  have s2: "s2 = s1\<lparr>input := js ''4+'', justComputed := False, result := None\<rparr>"
    unfolding s2_def handleInput_def using op by (simp add: s1 js_def)
  have nop: "\<not> isOperator (js ''3'')" by (simp add: isOperator_def js_def)
  have s3in: "handleInput (js ''3'') s2 = s2\<lparr>input := js ''4+3'', result := None, justComputed := False\<rparr>"
    unfolding handleInput_def by (simp add: s2 js_def)
  have "result s3 = Some (js ''7'')"
    unfolding s3_def s3in handleEquals_def using v2 js22 trim_nonblank
    by (simp add: formatNumber_7 Let_def)
  then show ?thesis by (simp add: s1 s2)
qed

theorem evaluate_chain_witness:
  "(let evaluate = (\<lambda>e. if e = js ''2+2'' then Some (Fin 4)
                        else if e = js ''4+3'' then Some (Fin 7) else None);
        s0 = initialState\<lparr>input := js ''2+2''\<rparr>;
        s1 = handleEquals evaluate s0;
        s2 = handleInput (js ''+'') s1;
        s3 = handleEquals evaluate (handleInput (js ''3'') s2)
    in evaluate (js ''2+2'') = Some (Fin 4) \<and> evaluate (js ''4+3'') = Some (Fin 7)
       \<and> input s0 = js ''2+2'' \<and> \<not> justComputed s0
       \<and> result s1 = Some (js ''4'') \<and> lastExpression s1 = Some (js ''2+2'')
       \<and> input s1 = js ''4'' \<and> justComputed s1
       \<and> input s2 = js ''4+'' \<and> \<not> justComputed s2
       \<and> result s3 = Some (js ''7''))"
  using evaluate_chain [of "\<lambda>e. if e = js ''2+2'' then Some (Fin 4)
                        else if e = js ''4+3'' then Some (Fin 7) else None"
      "initialState\<lparr>input := js ''2+2''\<rparr>"]
  by (simp add: initialState_def js_def Let_def)

subsection \<open>factorial\<close>



lemma factorial_never_returns:
  assumes "factorial x = Some y"
  shows "x \<noteq> NaN \<and> x \<noteq> PInf"
proof (rule factorial.raw_induct [where P = "\<lambda>x y. x \<noteq> NaN \<and> x \<noteq> PInf", OF _ assms])
  fix f n y
  assume 1: "\<And>x y. f x = Some y \<Longrightarrow> x \<noteq> NaN \<and> x \<noteq> PInf"
    "(if nlt n (Fin 0) then Some NaN
      else if neq n (Fin 0) \<or> neq n (Fin 1) then Some (Fin 1)
      else do { r \<leftarrow> f (nsub n (Fin 1)); Some (nmul n r) }) = Some y"
  show "n \<noteq> NaN \<and> n \<noteq> PInf"
  proof (cases "n = NaN \<or> n = PInf")
    case True
    then have "nsub n (Fin 1) = n" by (auto simp: nsub_def)
    moreover from True have "\<not> nlt n (Fin 0)" "\<not> neq n (Fin 0)" "\<not> neq n (Fin 1)"
      by (auto simp: neq_def)
    ultimately obtain r where "f n = Some r"
      using 1(2) by (auto split: bind_splits)
    with 1(1) True show ?thesis by blast
  next
    case False
    then show ?thesis by simp
  qed
qed

text \<open>
  Claim C9 says that \<^verbatim>\<open>factorial\<close> returns for every number. It does for every finite
  one (\<open>factorial_finite_total\<close> below). On \<^verbatim>\<open>NaN\<close> and \<^verbatim>\<open>Infinity\<close> no test stops
  the recursion, since \<^verbatim>\<open>n - 1\<close> is \<^verbatim>\<open>n\<close> again: the call never returns.
\<close>

theorem factorial_diverges: "factorial NaN = None \<and> factorial PInf = None"
  using factorial_never_returns by (metis not_Some_eq)

lemma factorial_finite_aux:
  "nat \<lfloor>r\<rfloor> = k \<Longrightarrow> \<exists>y. factorial (Fin r) = Some y"
proof (induction k arbitrary: r)
  case 0
  show ?case
  proof (cases "r < 0 \<or> r = 0 \<or> r = 1")
    case True
    then show ?thesis by (subst factorial.simps) (auto simp: neq_def)
  next
    case False
    with 0 have "r - 1 < 0" by (simp add: floor_le_zero le_floor_iff)
    then have "factorial (Fin (r - 1)) = Some NaN" by (subst factorial.simps) simp
    with False show ?thesis by (subst factorial.simps) (simp add: neq_def nsub_def)
  qed
next
  case (Suc k)
  then have "nat \<lfloor>r - 1\<rfloor> = k" by simp
  from Suc.IH [OF this] obtain y where "factorial (Fin (r - 1)) = Some y" by blast
  then show ?case by (subst factorial.simps) (simp add: neq_def nsub_def)
qed

lemma factorial_finite_total: "\<exists>y. factorial (Fin r) = Some y"
  using factorial_finite_aux by blast

subsection \<open>The function buttons on a failed or guarded evaluation\<close>



lemma evaluateExpressionValue_None_iff:
  "evaluateExpressionValue evaluate e = None \<longleftrightarrow>
     (case evaluate (sanitizeExpressionForEval e) of None \<Rightarrow> True | Some v \<Rightarrow> \<not> isFinite v)"
  by (cases "evaluate (sanitizeExpressionForEval e)"; cases "the (evaluate (sanitizeExpressionForEval e))")
     (auto simp: evaluateExpressionValue_def)

text \<open>
  Claim C8. When the evaluation of the current input fails (the library throws, or its
  value is not finite, so that \<^verbatim>\<open>evaluateExpressionValue\<close> returns \<^verbatim>\<open>null\<close>), every
  unary function transition (the trigonometric ones, square root, reciprocal, the
  powers and the exponential) sets the result to an invalid-input marker and enters the
  computed state, and leaves the input text as it is.
\<close>

theorem unary_function_failure:
  assumes "case evaluate (sanitizeExpressionForEval (input s)) of
             None \<Rightarrow> True | Some v \<Rightarrow> \<not> isFinite v"
  shows "evaluateExpressionValue evaluate (input s) = None
       \<and> calculateTrigFunction evaluate func label s =
           s\<lparr>result := Some INVALID_INPUT, lastExpression := None, justComputed := True\<rparr>
       \<and> handleSquareRoot evaluate s = s\<lparr>result := Some INVALID_INPUT, justComputed := True\<rparr>
       \<and> handleReciprocal evaluate s = s\<lparr>result := Some INVALID_OR_DIV0, justComputed := True\<rparr>
       \<and> handlePower Math_pow evaluate exponent s =
           s\<lparr>result := Some INVALID_INPUT, justComputed := True\<rparr>
       \<and> handleExp evaluate s = s\<lparr>result := Some INVALID_INPUT, justComputed := True\<rparr>"
proof -
  from assms have "evaluateExpressionValue evaluate (input s) = None"
    by (simp add: evaluateExpressionValue_None_iff)
  then show ?thesis
    by (simp add: calculateTrigFunction_def handleSquareRoot_def handleReciprocal_def
        handlePower_def handleExp_def)
qed

theorem unary_function_failure_witness:
  "(case (\<lambda>e. Some PInf) (sanitizeExpressionForEval (input (initialState\<lparr>input := js ''1/0''\<rparr>))) of
      None \<Rightarrow> True | Some v \<Rightarrow> \<not> isFinite v)
   \<and> input (calculateTrigFunction (\<lambda>e. Some PInf) (\<lambda>x. Some x) (Some (js ''sin''))
        (initialState\<lparr>input := js ''1/0''\<rparr>)) = js ''1/0''
   \<and> result (handleSquareRoot (\<lambda>e. Some PInf) (initialState\<lparr>input := js ''1/0''\<rparr>))
       = Some INVALID_INPUT
   \<and> justComputed (handleExp (\<lambda>e. Some PInf) (initialState\<lparr>input := js ''1/0''\<rparr>))"
  using unary_function_failure [of "\<lambda>e. Some PInf" "initialState\<lparr>input := js ''1/0''\<rparr>"
      "\<lambda>x. Some x" "Some (js ''sin'')"]
  by simp

subsection \<open>solveQuadraticEquation\<close>






subsection \<open>The result and the last expression\<close>

lemmas handler_defs = handleInput_def handleClear_def handleBackspace_def handleEquals_def
  toggleAngleMode_def calculateTrigFunction_def handleFactorial_def handleSquareRoot_def
  handleReciprocal_def handlePower_def handleExp_def handleInsertPi_def handleInsertE_def

lemma step_result_computed:
  "result s \<noteq> None \<longrightarrow> justComputed s \<Longrightarrow>
   result (step Math_pow evaluate s e) \<noteq> None \<longrightarrow> justComputed (step Math_pow evaluate s e)"
  by (cases e) (auto simp: handler_defs Let_def split: option.splits)

lemma step_quiet:
  "\<not> isEvaluation e \<Longrightarrow> result s = None \<and> lastExpression s = None \<Longrightarrow>
   result (step Math_pow evaluate s e) = None \<and> lastExpression (step Math_pow evaluate s e) = None"
  by (cases e) (auto simp: handler_defs Let_def split: option.splits)

lemma run_snoc: "run Math_pow evaluate (events @ [e]) = step Math_pow evaluate (run Math_pow evaluate events) e"
  by (simp add: run_def)

lemma run_result_computed:
  "result (run Math_pow evaluate events) \<noteq> None \<longrightarrow> justComputed (run Math_pow evaluate events)"
proof (induction events rule: rev_induct)
  case Nil
  show ?case by (simp add: run_def initialState_def)
next
  case (snoc e events)
  show ?case unfolding run_snoc by (rule step_result_computed) (rule snoc.IH)
qed

lemma run_quiet:
  "\<forall>e \<in> set events. \<not> isEvaluation e \<Longrightarrow>
   result (run Math_pow evaluate events) = None \<and> lastExpression (run Math_pow evaluate events) = None"
proof (induction events rule: rev_induct)
  case Nil
  show ?case by (simp add: run_def initialState_def)
next
  case (snoc e events)
  then show ?case unfolding run_snoc by (intro step_quiet) auto
qed

lemma handleInput_effect:
  "result (handleInput v s) = None \<and> \<not> justComputed (handleInput v s)
   \<and> lastExpression (handleInput v s) =
       (if justComputed s \<and> \<not> isOperator v \<and> isDigitOrDotOrParen v then None else lastExpression s)"
  by (simp add: handleInput_def)

lemma sample_run:
  "handleEquals sampleEvaluate
     (handleInput (js ''2'') (handleInput (js ''+'') (handleInput (js ''2'') initialState)))
   = \<lparr>input = js ''4'', result = Some (js ''4''), lastExpression = Some (js ''2+2''),
       angleMode = Deg, justComputed = True\<rparr>"
proof -
  have "handleInput (js ''2'') (handleInput (js ''+'') (handleInput (js ''2'') initialState))
      = initialState\<lparr>input := js ''2+2''\<rparr>"
    by (simp add: handleInput_def initialState_def js_def)
  moreover have "evaluateExpressionValue sampleEvaluate (js ''2+2'') = Some (Fin 4)"
    by (simp add: evaluateExpressionValue_def sanitize_2plus2 sampleEvaluate_def)
  moreover have "js ''2+2'' \<noteq> []" by (simp add: js_def)
  ultimately show ?thesis
    using trim_nonblank(1) by (simp add: handleEquals_def formatNumber_4 initialState_def Let_def)
qed

text \<open>
  Claim C3 says that every transition that appends raw input clears both the result and
  the last expression. An operator typed after a computation keeps the last expression
  (the source says so in a comment): after \<^verbatim>\<open>2+2 =\<close> and \<^verbatim>\<open>+\<close> it is still \<^verbatim>\<open>2+2\<close>.
\<close>

theorem operator_keeps_lastExpression:
  "lastExpression
     (handleInput (js ''+'')
        (handleEquals sampleEvaluate
           (handleInput (js ''2'') (handleInput (js ''+'') (handleInput (js ''2'') initialState)))))
   = Some (js ''2+2'')"
  unfolding sample_run by (simp add: handleInput_def isOperator_def js_def)

text \<open>
  Claim C3, amended. In every reachable state the result is non-null only in the computed
  state, and the result and the last expression are null unless an evaluation or a
  function application has taken place. Every transition that appends raw input clears
  the result and leaves the computed state; it clears the last expression when a digit, a
  point or a parenthesis is typed in the computed state, and keeps it otherwise.
\<close>

theorem input_transitions:
  "(result (run Math_pow evaluate events) \<noteq> None \<longrightarrow> justComputed (run Math_pow evaluate events))
   \<and> ((\<forall>e \<in> set events. \<not> isEvaluation e) \<longrightarrow>
        result (run Math_pow evaluate events) = None
        \<and> lastExpression (run Math_pow evaluate events) = None)
   \<and> result (handleInput v s) = None \<and> \<not> justComputed (handleInput v s)
   \<and> lastExpression (handleInput v s) =
       (if justComputed s \<and> \<not> isOperator v \<and> isDigitOrDotOrParen v then None
        else lastExpression s)"
  using run_result_computed [of Math_pow evaluate events] run_quiet [of events Math_pow evaluate]
    handleInput_effect [of v s]
  by blast

theorem input_transitions_witness:
  "result (run nmul sampleEvaluate [Input (js ''2''), Input (js ''+''), Input (js ''2''), Equals])
     = Some (js ''4'')
   \<and> justComputed (run nmul sampleEvaluate [Input (js ''2''), Input (js ''+''), Input (js ''2''), Equals])
   \<and> lastExpression (run nmul sampleEvaluate [Input (js ''2''), Input (js ''+''), Input (js ''2'')]) = None
   \<and> lastExpression (handleInput (js ''3'')
        (run nmul sampleEvaluate [Input (js ''2''), Input (js ''+''), Input (js ''2''), Equals])) = None
   \<and> lastExpression (handleInput (js ''*'')
        (run nmul sampleEvaluate [Input (js ''2''), Input (js ''+''), Input (js ''2''), Equals]))
     = Some (js ''2+2'')"
proof -
  have r: "run nmul sampleEvaluate [Input (js ''2''), Input (js ''+''), Input (js ''2''), Equals]
    = \<lparr>input = js ''4'', result = Some (js ''4''), lastExpression = Some (js ''2+2''),
       angleMode = Deg, justComputed = True\<rparr>"
    using sample_run by (simp add: run_def)
  have op: "isOperator (js ''*'')" "\<not> isOperator (js ''3'')" "isDigitOrDotOrParen (js ''3'')"
    by (simp_all add: isOperator_def isDigitOrDotOrParen_def isDigit_def js_def)
  have q: "\<forall>e \<in> set [Input (js ''2''), Input (js ''+''), Input (js ''2'')]. \<not> isEvaluation e"
    by simp
  show ?thesis
    using input_transitions [of nmul sampleEvaluate
        "[Input (js ''2''), Input (js ''+''), Input (js ''2''), Equals]" "js ''3''"
        "run nmul sampleEvaluate [Input (js ''2''), Input (js ''+''), Input (js ''2''), Equals]"]
      input_transitions [of nmul sampleEvaluate
        "[Input (js ''2''), Input (js ''+''), Input (js ''2'')]" "js ''*''"
        "run nmul sampleEvaluate [Input (js ''2''), Input (js ''+''), Input (js ''2''), Equals]"]
      q op
    by (simp add: r)
qed

subsection \<open>Base conversion\<close>

lemma nmod_nat: "0 < b \<Longrightarrow> nmod (Fin (real n)) (Fin (real b)) = Fin (real (n mod b))"
proof -
  assume b: "0 < b"
  have "\<lfloor>real n / real b\<rfloor> = int (n div b)" by (simp add: floor_divide_of_nat_eq)
  moreover have "\<not> real n / real b < 0" by (simp add: not_less)
  ultimately have "Math_trunc (real n / real b) = int (n div b)" by (simp add: Math_trunc_def)
  moreover have "real n - real b * real (n div b) = real (n mod b)"
    by (metis add_diff_cancel_left' mult_div_mod_eq of_nat_add of_nat_mult)
  ultimately show ?thesis using b by simp
qed

lemma floor_div_nat: "Math_floor (ndiv (Fin (real n)) (Fin (real b))) = Fin (real (n div b))" if "0 < b"
  using that by (simp add: floor_divide_of_nat_eq)

lemma String_number_digit: "d < 10 \<Longrightarrow> String_number (Fin (real d)) = [48 + d]"
  by (simp add: String_int_def showMagnitude_def showNat.simps)

lemma digitsOf_less: "d \<in> set (digitsOf b n) \<Longrightarrow> d < b"
proof (induction b n rule: digitsOf.induct)
  case (1 b n)
  then show ?case by (subst (asm) (2) digitsOf.simps) (auto split: if_splits)
qed

lemma digitsOf_nonempty: "0 < n \<Longrightarrow> 2 \<le> b \<Longrightarrow> digitsOf b n \<noteq> []"
  by (subst digitsOf.simps) simp

lemma digitsOf_value: "2 \<le> b \<Longrightarrow> foldl (\<lambda>a d. b * a + d) 0 (digitsOf b n) = n"
proof (induction b n rule: digitsOf.induct)
  case (1 b n)
  show ?case
  proof (cases "n = 0")
    case True
    then show ?thesis by (subst digitsOf.simps) simp
  next
    case False
    with 1 have "foldl (\<lambda>a d. b * a + d) 0 (digitsOf b (n div b)) = n div b" by simp
    with False 1(2) show ?thesis by (subst digitsOf.simps) simp
  qed
qed

lemma binaryLoop_nat:
  "binaryLoop (Fin (real n)) acc = Some (map (\<lambda>d. 48 + d) (digitsOf 2 n) @ acc)"
proof (induction n arbitrary: acc rule: less_induct)
  case (less n)
  show ?case
  proof (cases "n = 0")
    case True
    then show ?thesis
      by (subst binaryLoop.simps, subst digitsOf.simps) (simp add: ngt_def)
  next
    case False
    have fl: "Math_floor (ndiv (Fin (real n)) (Fin 2)) = Fin (real (n div 2))"
      using floor_div_nat [of 2 n] by simp
    have md: "String_number (nmod (Fin (real n)) (Fin 2)) = [48 + n mod 2]"
      using nmod_nat [of 2 n] String_number_digit [of "n mod 2"] by simp
    have "binaryLoop (Fin (real n)) acc = binaryLoop (Fin (real (n div 2))) ([48 + n mod 2] @ acc)"
      using False by (subst binaryLoop.simps) (simp only: fl md, simp add: ngt_def)
    also have "\<dots> = Some (map (\<lambda>d. 48 + d) (digitsOf 2 (n div 2)) @ [48 + n mod 2] @ acc)"
      using False by (intro less.IH) simp
    also have "\<dots> = Some (map (\<lambda>d. 48 + d) (digitsOf 2 n) @ acc)"
      using False by (subst (2) digitsOf.simps) simp
    finally show ?thesis .
  qed
qed

lemma charAt_hexDigits: "d < 16 \<Longrightarrow> charAt hexDigits (Fin (real d)) = [hexDigits ! d]"
  by (simp add: charAt_def hexDigits_def js_def)

lemma hexLoop_nat:
  "hexLoop (Fin (real n)) acc = Some (map (\<lambda>d. hexDigits ! d) (digitsOf 16 n) @ acc)"
proof (induction n arbitrary: acc rule: less_induct)
  case (less n)
  show ?case
  proof (cases "n = 0")
    case True
    then show ?thesis
      by (subst hexLoop.simps, subst digitsOf.simps) (simp add: ngt_def)
  next
    case False
    have fl: "Math_floor (ndiv (Fin (real n)) (Fin 16)) = Fin (real (n div 16))"
      using floor_div_nat [of 16 n] by simp
    have md: "charAt hexDigits (nmod (Fin (real n)) (Fin 16)) = [hexDigits ! (n mod 16)]"
      using nmod_nat [of 16 n] charAt_hexDigits [of "n mod 16"] by simp
    have "hexLoop (Fin (real n)) acc = hexLoop (Fin (real (n div 16))) ([hexDigits ! (n mod 16)] @ acc)"
      using False by (subst hexLoop.simps) (simp only: fl md, simp add: ngt_def)
    also have "\<dots> = Some (map (\<lambda>d. hexDigits ! d) (digitsOf 16 (n div 16)) @ [hexDigits ! (n mod 16)] @ acc)"
      using False by (intro less.IH) simp
    also have "\<dots> = Some (map (\<lambda>d. hexDigits ! d) (digitsOf 16 n) @ acc)"
      using False by (subst (2) digitsOf.simps) simp
    finally show ?thesis .
  qed
qed

lemma digitValue_space: "isSpace c \<Longrightarrow> digitValue c = 36"
  by (auto simp: isSpace_def digitValue_def)

lemma parseInt_plain:
  assumes ne: "s \<noteq> []" and dig: "\<forall>c \<in> set s. digitValue c < radix" and r: "radix \<le> 36"
  shows "parseInt s radix = Fin (real (foldl (\<lambda>a c. radix * a + digitValue c) 0 s))"
proof -
  from ne obtain c cs where s: "s = c # cs" by (cases s) auto
  with dig have c: "digitValue c < radix" by simp
  with r have nsp: "\<not> isSpace c" using digitValue_space [of c] by auto
  from c r have sign: "c \<noteq> 43" "c \<noteq> 45" by (auto simp: digitValue_def)
  have nox: "\<not> (radix = 16 \<and> (take 2 s = js ''0x'' \<or> take 2 s = js ''0X''))"
  proof
    assume a: "radix = 16 \<and> (take 2 s = js ''0x'' \<or> take 2 s = js ''0X'')"
    then obtain x where "x \<in> set s" "x = 120 \<or> x = 88"
      by (cases cs) (auto simp: s js_def)
    with dig a show False by (auto simp: digitValue_def)
  qed
  have tw: "takeWhile (\<lambda>c. digitValue c < radix) s = s"
    using dig by (simp add: takeWhile_eq_all_conv)
  have dw: "dropWhile isSpace s = s" using nsp by (simp add: s)
  have t2: "(if s \<noteq> [] \<and> (hd s = 43 \<or> hd s = 45) then tl s else s) = s"
    using sign by (simp add: s)
  have t3: "(if radix = 16 \<and> (take 2 s = js ''0x'' \<or> take 2 s = js ''0X'') then drop 2 s else s) = s"
    using nox by (rule if_not_P)
  have neg: "(s \<noteq> [] \<and> hd s = 45) = False" using sign by (simp add: s)
  show ?thesis
    unfolding parseInt_def Let_def dw t2 t3 tw neg using ne by simp
qed

lemma foldl_digit_chars:
  assumes "\<forall>d \<in> set ds. digitValue (f d) = d"
  shows "foldl (\<lambda>a c. b * a + digitValue c) a0 (map f ds) = foldl (\<lambda>a d. b * a + d) a0 ds"
  using assms by (induction ds arbitrary: a0) simp_all

lemma digitValue_hexDigits: "d < 16 \<Longrightarrow> digitValue (hexDigits ! d) = d"
proof -
  assume "d < 16"
  then have "d = 0 \<or> d = 1 \<or> d = 2 \<or> d = 3 \<or> d = 4 \<or> d = 5 \<or> d = 6 \<or> d = 7 \<or> d = 8
      \<or> d = 9 \<or> d = 10 \<or> d = 11 \<or> d = 12 \<or> d = 13 \<or> d = 14 \<or> d = 15" by arith
  then show ?thesis by (elim disjE) (simp_all add: hexDigits_def js_def digitValue_def)
qed

lemma hexDigits_class:
  "d < 16 \<Longrightarrow> isDigit (hexDigits ! d) \<or> (65 \<le> hexDigits ! d \<and> hexDigits ! d \<le> 70)"
proof -
  assume "d < 16"
  then have "d = 0 \<or> d = 1 \<or> d = 2 \<or> d = 3 \<or> d = 4 \<or> d = 5 \<or> d = 6 \<or> d = 7 \<or> d = 8
      \<or> d = 9 \<or> d = 10 \<or> d = 11 \<or> d = 12 \<or> d = 13 \<or> d = 14 \<or> d = 15" by arith
  then show ?thesis by (elim disjE) (simp_all add: hexDigits_def js_def isDigit_def)
qed

lemma decimalToBinary_nat:
  "decimalToBinary (Fin (real n)) =
     Some (if n = 0 then js ''0'' else map (\<lambda>d. 48 + d) (digitsOf 2 n))"
  using binaryLoop_nat [of n "[]"]
  by (subst decimalToBinary.simps) (simp add: neq_def)

lemma decimalToHex_nat:
  "decimalToHex (Fin (real n)) =
     Some (if n = 0 then js ''0'' else map (\<lambda>d. hexDigits ! d) (digitsOf 16 n))"
  using hexLoop_nat [of n "[]"]
  by (subst decimalToHex.simps) (simp add: neq_def)

lemma binaryToDecimal_digits:
  "0 < n \<Longrightarrow> binaryToDecimal (map (\<lambda>d. 48 + d) (digitsOf 2 n)) = Fin (real n)"
proof -
  assume n: "0 < n"
  let ?s = "map (\<lambda>d. 48 + d) (digitsOf 2 n)"
  have lt: "\<forall>d \<in> set (digitsOf 2 n). d < 2" using digitsOf_less by blast
  then have dv: "\<forall>d \<in> set (digitsOf 2 n). digitValue (48 + d) = d"
    by (auto simp: digitValue_def)
  have ne: "?s \<noteq> []" using digitsOf_nonempty [of n 2] n by simp
  have cls: "list_all (\<lambda>c. c = 48 \<or> c = 49) ?s"
    using lt by (auto simp: list_all_iff less_2_cases_iff)
  have dig: "\<forall>c \<in> set ?s. digitValue c < 2" using dv lt by auto
  have "parseInt ?s 2 = Fin (real (foldl (\<lambda>a c. 2 * a + digitValue c) 0 ?s))"
    using parseInt_plain [OF ne dig] by simp
  also have "foldl (\<lambda>a c. 2 * a + digitValue c) 0 ?s = foldl (\<lambda>a d. 2 * a + d) 0 (digitsOf 2 n)"
    using dv by (rule foldl_digit_chars)
  also have "\<dots> = n" using digitsOf_value [of 2 n] by simp
  finally show ?thesis using ne cls by (simp add: binaryToDecimal_def)
qed

lemma hexToDecimal_digits:
  "0 < n \<Longrightarrow> hexToDecimal (map (\<lambda>d. hexDigits ! d) (digitsOf 16 n)) = Fin (real n)"
proof -
  assume n: "0 < n"
  let ?s = "map (\<lambda>d. hexDigits ! d) (digitsOf 16 n)"
  have lt: "\<forall>d \<in> set (digitsOf 16 n). d < 16" using digitsOf_less by blast
  then have dv: "\<forall>d \<in> set (digitsOf 16 n). digitValue (hexDigits ! d) = d"
    using digitValue_hexDigits by blast
  have ne: "?s \<noteq> []" using digitsOf_nonempty [of n 16] n by simp
  have cls: "list_all (\<lambda>c. isDigit c \<or> (65 \<le> c \<and> c \<le> 70) \<or> (97 \<le> c \<and> c \<le> 102)) ?s"
    using lt hexDigits_class by (auto simp: list_all_iff)
  have dig: "\<forall>c \<in> set ?s. digitValue c < 16" using dv lt by auto
  have "parseInt ?s 16 = Fin (real (foldl (\<lambda>a c. 16 * a + digitValue c) 0 ?s))"
    using parseInt_plain [OF ne dig] by simp
  also have "foldl (\<lambda>a c. 16 * a + digitValue c) 0 ?s = foldl (\<lambda>a d. 16 * a + d) 0 (digitsOf 16 n)"
    using dv by (rule foldl_digit_chars)
  also have "\<dots> = n" using digitsOf_value [of 16 n] by simp
  finally show ?thesis using ne cls by (simp add: hexToDecimal_def)
qed

lemma zero_roundtrip: "binaryToDecimal (js ''0'') = Fin 0" "hexToDecimal (js ''0'') = Fin 0"
  by (simp_all add: binaryToDecimal_def hexToDecimal_def parseInt_def js_def isSpace_def
      digitValue_def isDigit_def)

text \<open>
  Claim C5. For every non-negative integer \<open>n < 2^31\<close>, \<^verbatim>\<open>decimalToBinary\<close> and
  \<^verbatim>\<open>decimalToHex\<close> return, and \<^verbatim>\<open>binaryToDecimal\<close> and \<^verbatim>\<open>hexToDecimal\<close> read their
  results back as \<open>n\<close>.
\<close>

theorem base_roundtrip:
  assumes "n < 2 ^ 31"
  shows "(\<exists>s. decimalToBinary (Fin (real n)) = Some s \<and> binaryToDecimal s = Fin (real n))
       \<and> (\<exists>h. decimalToHex (Fin (real n)) = Some h \<and> hexToDecimal h = Fin (real n))"
proof (cases "n = 0")
  case True
  then show ?thesis
    using decimalToBinary_nat [of 0] decimalToHex_nat [of 0] by (simp add: zero_roundtrip)
next
  case False
  then show ?thesis
    by (simp add: decimalToBinary_nat decimalToHex_nat binaryToDecimal_digits hexToDecimal_digits)
qed

lemma digitsOf_5: "digitsOf 2 5 = [1, 0, 1]" "digitsOf 16 255 = [15, 15]" "digitsOf 2 255 = [1,1,1,1,1,1,1,1]"
  by (simp_all add: digitsOf.simps)

theorem base_roundtrip_witness:
  "(255::nat) < 2 ^ 31
   \<and> decimalToBinary (Fin 255) = Some (js ''11111111'') \<and> binaryToDecimal (js ''11111111'') = Fin 255
   \<and> decimalToHex (Fin 255) = Some (js ''FF'') \<and> hexToDecimal (js ''FF'') = Fin 255"
proof -
  have b: "decimalToBinary (Fin (real 255)) = Some (js ''11111111'')"
    using decimalToBinary_nat [of 255] by (simp add: digitsOf_5 js_def)
  have h: "decimalToHex (Fin (real 255)) = Some (js ''FF'')"
    using decimalToHex_nat [of 255] by (simp add: digitsOf_5 js_def hexDigits_def)
  have lt: "(255::nat) < 2 ^ 31" by simp
  from base_roundtrip [OF lt] b h show ?thesis by simp
qed

lemma decimalToBinary_pos:
  assumes "0 < r"
  shows "decimalToBinary (Fin r) = Some (map (\<lambda>d. 48 + d) (digitsOf 2 (nat \<lfloor>r\<rfloor>)))"
proof -
  from assms have "0 \<le> \<lfloor>r\<rfloor>" by simp
  then have "Math_floor (Fin r) = Fin (real (nat \<lfloor>r\<rfloor>))" by simp
  with assms binaryLoop_nat [of "nat \<lfloor>r\<rfloor>" "[]"] show ?thesis
    by (subst decimalToBinary.simps) (simp add: neq_def del: Math_floor.simps)
qed

lemma decimalToBinary_neg:
  assumes "r < 0"
  shows "decimalToBinary (Fin r) = Some (45 # map (\<lambda>d. 48 + d) (digitsOf 2 (nat \<lfloor>- r\<rfloor>)))"
  using assms decimalToBinary_pos [of "- r"]
  by (subst decimalToBinary.simps) simp

lemma decimalToHex_pos:
  assumes "0 < r"
  shows "decimalToHex (Fin r) = Some (map (\<lambda>d. hexDigits ! d) (digitsOf 16 (nat \<lfloor>r\<rfloor>)))"
proof -
  from assms have "0 \<le> \<lfloor>r\<rfloor>" by simp
  then have "Math_floor (Fin r) = Fin (real (nat \<lfloor>r\<rfloor>))" by simp
  with assms hexLoop_nat [of "nat \<lfloor>r\<rfloor>" "[]"] show ?thesis
    by (subst decimalToHex.simps) (simp add: neq_def del: Math_floor.simps)
qed

lemma decimalToHex_neg:
  assumes "r < 0"
  shows "decimalToHex (Fin r) = Some (45 # map (\<lambda>d. hexDigits ! d) (digitsOf 16 (nat \<lfloor>- r\<rfloor>)))"
  using assms decimalToHex_pos [of "- r"]
  by (subst decimalToHex.simps) simp

lemma conversion_examples:
  "decimalToBinary (Fin 0) = Some (js ''0'')"
  "decimalToHex (Fin 0) = Some (js ''0'')"
  "decimalToBinary (Fin (- 5)) = Some (js ''-101'')"
  "decimalToBinary (Fin (11 / 2)) = Some (js ''101'')"
  using decimalToBinary_nat [of 0] decimalToHex_nat [of 0] decimalToBinary_neg [of "- 5"]
    decimalToBinary_pos [of "11 / 2"]
  by (simp_all add: digitsOf_5 js_def)

text \<open>
  Claim C6 says that an input whose integer part is zero maps to \<^verbatim>\<open>0\<close>. The test
  \<^verbatim>\<open>num === 0\<close> comes before \<^verbatim>\<open>Math.floor\<close>, so a number strictly between 0 and 1 skips
  it and the loop does not run: the result is the empty string (and \<^verbatim>\<open>-\<close> alone for a
  number strictly between -1 and 0). The lemmas above give what the code returns on every
  finite number, and the three values the claim lists.
\<close>

theorem conversion_of_fraction:
  "decimalToBinary (Fin (1 / 2)) = Some [] \<and> decimalToHex (Fin (1 / 2)) = Some []
   \<and> decimalToBinary (Fin (- 1 / 2)) = Some (js ''-'')"
  using decimalToBinary_pos [of "1 / 2"] decimalToHex_pos [of "1 / 2"] decimalToBinary_neg [of "- 1 / 2"]
  by (simp add: digitsOf.simps js_def)

subsection \<open>The pre-processor\<close>

text \<open>A replacement pass on a concatenation, and the characters a pass can produce.\<close>

lemma replaceAll_append:
  assumes "\<And>x. x \<noteq> [] \<Longrightarrow> suffix x u \<Longrightarrow> m (x @ w) = m x"
    and "\<And>x n rep. m x = Some (n, rep) \<Longrightarrow> 0 < n \<and> n \<le> length x"
  shows "replaceAll m (u @ w) = replaceAll m u @ replaceAll m w"
  using assms
proof (induction m u rule: replaceAll.induct)
  case (1 m)
  show ?case by simp
next
  case (2 m c cs)
  have eq: "m ((c # cs) @ w) = m (c # cs)" by (rule 2(3)) simp_all
  show ?case
  proof (cases "m (c # cs)")
    case None
    have "replaceAll m (cs @ w) = replaceAll m cs @ replaceAll m w"
    proof (rule 2(1) [OF None])
      fix x assume "x \<noteq> []" "suffix x cs"
      then show "m (x @ w) = m x" by (intro 2(3)) (auto simp: suffix_Cons)
    qed (rule 2(4))
    with None eq show ?thesis by simp
  next
    case (Some p)
    obtain n rep where p: "p = (n, rep)" by (cases p)
    from 2(4) Some p have n: "0 < n" "n \<le> Suc (length cs)" by fastforce+
    have "replaceAll m (drop (n - 1) cs @ w) = replaceAll m (drop (n - 1) cs) @ replaceAll m w"
    proof (rule 2(2) [OF Some p [symmetric]])
      fix x assume x: "x \<noteq> []" "suffix x (drop (n - 1) cs)"
      then have "suffix x (c # cs)"
        by (meson suffix_drop suffix_order.trans suffix_ConsI)
      with x show "m (x @ w) = m x" by (intro 2(3))
    qed (rule 2(4))
    moreover have "drop (n - 1) (cs @ w) = drop (n - 1) cs @ w" using n by simp
    ultimately show ?thesis using Some p eq by simp
  qed
qed


lemma letter_not_space: "isLetter b \<or> b = 960 \<or> b = 40 \<Longrightarrow> \<not> isSpace b"
  by (auto simp: isLetter_def isSpace_def)

lemma matchImplicitMul_bound:
  "matchImplicitMul x = Some (n, rep) \<Longrightarrow> 0 < n \<and> n \<le> length x"
proof -
  assume a: "matchImplicitMul x = Some (n, rep)"
  then obtain c rest where x: "x = c # rest" by (cases x) (auto simp: matchImplicitMul_def)
  from a obtain b r where d: "dropWhile isSpace rest = b # r"
    and n: "n = length (takeWhile isSpace rest) + 2"
    by (auto simp: matchImplicitMul_def x split: if_splits list.splits)
  have "length rest = length (takeWhile isSpace rest) + length (dropWhile isSpace rest)"
    by (metis length_append takeWhile_dropWhile_id)
  with d n show ?thesis by (simp add: x)
qed

lemma matchParens_bound:
  "matchParens x = Some (n, rep) \<Longrightarrow> 0 < n \<and> n \<le> length x"
proof -
  assume a: "matchParens x = Some (n, rep)"
  then obtain c rest where x: "x = c # rest" by (cases x) (auto simp: matchParens_def)
  from a obtain b r where d: "dropWhile isSpace rest = b # r"
    and n: "n = length (takeWhile isSpace rest) + 2"
    by (auto simp: matchParens_def x split: if_splits list.splits)
  have "length rest = length (takeWhile isSpace rest) + length (dropWhile isSpace rest)"
    by (metis length_append takeWhile_dropWhile_id)
  with d n show ?thesis by (simp add: x)
qed

lemma dropWhile_append_cases:
  assumes "\<not> P d"
  shows "dropWhile P (rest @ d # w) =
     (if dropWhile P rest = [] then d # w else dropWhile P rest @ d # w)"
    and "takeWhile P (rest @ d # w) = takeWhile P rest"
  using assms by (induction rest) auto

lemma matchImplicitMul_append:
  assumes "x \<noteq> []" "\<not> isSpace d" "\<not> (isLetter d \<or> d = 960 \<or> d = 40)"
  shows "matchImplicitMul (x @ d # w) = matchImplicitMul x"
proof -
  from assms(1) obtain a rest where x: "x = a # rest" by (cases x) auto
  show ?thesis
  proof (cases "dropWhile isSpace rest")
    case Nil
    then show ?thesis
      unfolding x matchImplicitMul_def using assms(2,3) by (simp add: dropWhile_append_cases del: dropWhile_eq_Nil_conv)
  next
    case (Cons b r)
    then show ?thesis
      unfolding x matchImplicitMul_def using assms(2,3) by (simp add: dropWhile_append_cases del: dropWhile_eq_Nil_conv)
  qed
qed

lemma matchParens_append:
  assumes "x \<noteq> []" "\<not> isSpace d" "d \<noteq> 40"
  shows "matchParens (x @ d # w) = matchParens x"
proof -
  from assms(1) obtain a rest where x: "x = a # rest" by (cases x) auto
  show ?thesis
  proof (cases "dropWhile isSpace rest")
    case Nil
    then show ?thesis
      unfolding x matchParens_def using assms(2,3) by (simp add: dropWhile_append_cases del: dropWhile_eq_Nil_conv)
  next
    case (Cons b r)
    then show ?thesis
      unfolding x matchParens_def using assms(2,3) by (simp add: dropWhile_append_cases del: dropWhile_eq_Nil_conv)
  qed
qed

lemma implicitMul_inserted:
  assumes "isDigit a" "isLetter b \<or> b = 960 \<or> b = 40"
  shows "replaceAll matchImplicitMul (u @ a # b # v) =
         replaceAll matchImplicitMul u @ [a, 42, b] @ replaceAll matchImplicitMul v"
proof -
  have a: "\<not> isSpace a" "\<not> (isLetter a \<or> a = 960 \<or> a = 40)"
    using assms(1) by (auto simp: isDigit_def isSpace_def isLetter_def)
  have "replaceAll matchImplicitMul (u @ a # b # v) =
        replaceAll matchImplicitMul u @ replaceAll matchImplicitMul (a # b # v)"
    by (rule replaceAll_append) (simp_all add: matchImplicitMul_append a matchImplicitMul_bound)
  moreover have "matchImplicitMul (a # b # v) = Some (2, [a, 42, b])"
    using assms letter_not_space [OF assms(2)] by (simp add: matchImplicitMul_def)
  ultimately show ?thesis by simp
qed


lemma digit_run:
  assumes "list_all isDigit ds" "\<not> isDigit c"
  shows "takeWhile isDigit (ds @ c # v) = ds" "dropWhile isDigit (ds @ c # v) = c # v"
  using assms by (induction ds) auto

lemma matchPercent_literal:
  assumes "ds \<noteq> []" "list_all isDigit ds"
  shows "matchPercent (ds @ 37 # v) = Some (length ds + 1, js ''('' @ ds @ js ''/100)'')"
proof -
  have "\<not> isDigit 37" by (simp add: isDigit_def)
  from digit_run [OF assms(2) this] assms(1) show ?thesis
    by (simp add: matchPercent_def Let_def)
qed

lemma matchPercent_decimal:
  assumes "ds \<noteq> []" "list_all isDigit ds" "fs \<noteq> []" "list_all isDigit fs"
  shows "matchPercent (ds @ 46 # fs @ 37 # v) =
         Some (length ds + length fs + 2, js ''('' @ ds @ [46] @ fs @ js ''/100)'')"
proof -
  have nd: "\<not> isDigit 37" "\<not> isDigit 46" by (simp_all add: isDigit_def)
  from digit_run [OF assms(2) nd(2)] digit_run [OF assms(4) nd(1)] assms(1,3) show ?thesis
    by (simp add: matchPercent_def Let_def)
qed

lemma matchPercent_unfold:
  "matchPercent x =
     (if takeWhile isDigit x = [] then None
      else if dropWhile isDigit x \<noteq> [] \<and> hd (dropWhile isDigit x) = 46
              \<and> takeWhile isDigit (drop 1 (dropWhile isDigit x)) \<noteq> []
              \<and> dropWhile isDigit (drop 1 (dropWhile isDigit x)) \<noteq> []
              \<and> hd (dropWhile isDigit (drop 1 (dropWhile isDigit x))) = 37
      then Some (length (takeWhile isDigit x)
                   + length (takeWhile isDigit (drop 1 (dropWhile isDigit x))) + 2,
                 js ''('' @ takeWhile isDigit x @ [46]
                   @ takeWhile isDigit (drop 1 (dropWhile isDigit x)) @ js ''/100)'')
      else if dropWhile isDigit x \<noteq> [] \<and> hd (dropWhile isDigit x) = 37
      then Some (length (takeWhile isDigit x) + 1, js ''('' @ takeWhile isDigit x @ js ''/100)'')
      else None)"
  unfolding matchPercent_def Let_def ..

lemma nonempty_length: "xs \<noteq> [] \<Longrightarrow> 1 \<le> length xs"
  by (cases xs) simp_all

lemma nonempty_drop1: "xs \<noteq> [] \<Longrightarrow> length xs = 1 + length (drop 1 xs)"
  by (cases xs) simp_all

lemma matchPercent_bound:
  assumes "matchPercent x = Some (n, rep)"
  shows "0 < n \<and> n \<le> length x"
proof -
  let ?ds = "takeWhile isDigit x" and ?rest = "dropWhile isDigit x"
  let ?fs = "takeWhile isDigit (drop 1 ?rest)" and ?rest' = "dropWhile isDigit (drop 1 ?rest)"
  have len: "length x = length ?ds + length ?rest"
    by (metis length_append takeWhile_dropWhile_id)
  have len': "length (drop 1 ?rest) = length ?fs + length ?rest'"
    by (metis length_append takeWhile_dropWhile_id)
  show ?thesis
  proof (cases "?ds = []")
    case True
    then have "matchPercent x = None" by (simp only: matchPercent_unfold if_True simp_thms)
    with assms show ?thesis by (simp only: option.distinct)
  next
    case ds: False
    show ?thesis
    proof (cases "?rest \<noteq> [] \<and> hd ?rest = 46 \<and> ?fs \<noteq> [] \<and> ?rest' \<noteq> [] \<and> hd ?rest' = 37")
      case True
      with ds have "matchPercent x = Some (length ?ds + length ?fs + 2,
          js ''('' @ ?ds @ [46] @ ?fs @ js ''/100)'')"
        by (simp only: matchPercent_unfold if_True if_False simp_thms)
      with assms have n: "n = length ?ds + length ?fs + 2"
        by (simp only: option.inject prod.inject)
      from True have r': "?rest' \<noteq> []" and r: "?rest \<noteq> []" by blast+
      from nonempty_length [OF r'] nonempty_drop1 [OF r] n len len' show ?thesis by linarith
    next
      case c1: False
      show ?thesis
      proof (cases "?rest \<noteq> [] \<and> hd ?rest = 37")
        case True
        with ds c1 have "matchPercent x = Some (length ?ds + 1, js ''('' @ ?ds @ js ''/100)'')"
          by (simp only: matchPercent_unfold if_True if_False simp_thms)
        with assms have n: "n = length ?ds + 1" by (simp only: option.inject prod.inject)
        from True have r: "?rest \<noteq> []" by blast
        from nonempty_length [OF r] n len show ?thesis by linarith
      next
        case False
        with ds c1 have "matchPercent x = None"
          by (simp only: matchPercent_unfold if_True if_False simp_thms)
        with assms show ?thesis by (simp only: option.distinct)
      qed
    qed
  qed
qed

lemma run_inside:
  assumes "x \<noteq> []" "\<not> P (last x)"
  shows "takeWhile P (x @ w) = takeWhile P x \<and> dropWhile P (x @ w) = dropWhile P x @ w
       \<and> dropWhile P x \<noteq> [] \<and> last (dropWhile P x) = last x"
proof -
  from assms have in_x: "last x \<in> set x" by simp
  from in_x assms(2) have 1: "takeWhile P (x @ w) = takeWhile P x" by (rule takeWhile_append1)
  from in_x assms(2) have 2: "dropWhile P (x @ w) = dropWhile P x @ w" by (rule dropWhile_append1)
  from in_x assms(2) have ne: "dropWhile P x \<noteq> []" by auto
  then have "last (dropWhile P x) = last x" by (metis last_appendR takeWhile_dropWhile_id)
  with 1 2 ne show ?thesis by blast
qed

lemma matchPercent_append:
  assumes x: "x \<noteq> []" and l: "\<not> isDigit (last x)" "last x \<noteq> 46"
  shows "matchPercent (x @ w) = matchPercent x"
proof -
  let ?rest = "dropWhile isDigit x"
  from run_inside [where P = isDigit and w = w, OF x l(1)]
  have r: "takeWhile isDigit (x @ w) = takeWhile isDigit x"
    "dropWhile isDigit (x @ w) = dropWhile isDigit x @ w"
    "dropWhile isDigit x \<noteq> []" "last (dropWhile isDigit x) = last x" by blast+
  have hd: "hd (?rest @ w) = hd ?rest" using r(3) by simp
  show ?thesis
  proof (cases "hd ?rest = 46")
    case False
    with r hd show ?thesis by (simp add: matchPercent_def Let_def)
  next
    case True
    then obtain t where rest: "?rest = 46 # t" using r(3) by (cases ?rest) auto
    with r(4) l(2) have t: "t \<noteq> []" "last t = last x" by (auto split: if_splits)
    with l(1) have lt: "\<not> isDigit (last t)" by simp
    from run_inside [where P = isDigit and w = w, OF t(1) lt]
    have q: "takeWhile isDigit (t @ w) = takeWhile isDigit t"
      "dropWhile isDigit (t @ w) = dropWhile isDigit t @ w"
      "dropWhile isDigit t \<noteq> []" by blast+
    have "hd (dropWhile isDigit t @ w) = hd (dropWhile isDigit t)" using q(3) by simp
    with r q rest show ?thesis by (simp add: matchPercent_def Let_def)
  qed
qed

lemma percent_prefix:
  assumes "u = [] \<or> (\<not> isDigit (last u) \<and> last u \<noteq> 46)"
  shows "replaceAll matchPercent (u @ w) = replaceAll matchPercent u @ replaceAll matchPercent w"
proof (rule replaceAll_append)
  fix x :: jstring assume x: "x \<noteq> []" "suffix x u"
  then have "last x = last u" by (auto simp: suffix_def)
  moreover from x have "u \<noteq> []" by (auto simp: suffix_def)
  ultimately show "matchPercent (x @ w) = matchPercent x"
    using assms x(1) by (intro matchPercent_append) auto
qed (rule matchPercent_bound)

lemma percent_rewritten:
  assumes u: "u = [] \<or> (\<not> isDigit (last u) \<and> last u \<noteq> 46)"
    and ds: "ds \<noteq> []" "list_all isDigit ds"
  shows "replaceAll matchPercent (u @ ds @ 37 # v) =
         replaceAll matchPercent u @ js ''('' @ ds @ js ''/100)'' @ replaceAll matchPercent v"
proof -
  from ds(1) obtain d ds' where d: "ds = d # ds'" by (cases ds) auto
  have "replaceAll matchPercent (ds @ 37 # v) = js ''('' @ ds @ js ''/100)'' @ replaceAll matchPercent v"
    using matchPercent_literal [OF ds, of v] by (simp add: d)
  with percent_prefix [OF u, of "ds @ 37 # v"] show ?thesis by simp
qed

lemma percent_decimal_rewritten:
  assumes u: "u = [] \<or> (\<not> isDigit (last u) \<and> last u \<noteq> 46)"
    and ds: "ds \<noteq> []" "list_all isDigit ds" and fs: "fs \<noteq> []" "list_all isDigit fs"
  shows "replaceAll matchPercent (u @ ds @ 46 # fs @ 37 # v) =
         replaceAll matchPercent u @ js ''('' @ ds @ [46] @ fs @ js ''/100)''
           @ replaceAll matchPercent v"
proof -
  from ds(1) obtain d ds' where d: "ds = d # ds'" by (cases ds) auto
  have "replaceAll matchPercent (ds @ 46 # fs @ 37 # v) =
        js ''('' @ ds @ [46] @ fs @ js ''/100)'' @ replaceAll matchPercent v"
    using matchPercent_decimal [OF ds fs, of v] by (simp add: d)
  with percent_prefix [OF u, of "ds @ 46 # fs @ 37 # v"] show ?thesis by simp
qed

lemma sanitize_passes:
  "sanitizeExpressionForEval s =
     replaceAll matchPercent (replacePi (replaceAll matchParens
       (replaceAll matchImplicitMul (replaceSquared (replaceGlyphs s)))))"
  by (cases "s = []")
     (simp_all add: sanitizeExpressionForEval_def Let_def replaceGlyphs_def replaceSquared_def
        replacePi_def)

lemma replaceGlyphs_append: "replaceGlyphs (u @ v) = replaceGlyphs u @ replaceGlyphs v"
  by (simp add: replaceGlyphs_def)

lemma replaceSquared_append: "replaceSquared (u @ v) = replaceSquared u @ replaceSquared v"
  by (simp add: replaceSquared_def)

lemma replacePi_append: "replacePi (u @ v) = replacePi u @ replacePi v"
  by (simp add: replacePi_def)

lemma replaceGlyphs_Cons:
  "replaceGlyphs (c # v) = (if c = 215 then 42 else if c = 247 then 47 else c) # replaceGlyphs v"
  by (simp add: replaceGlyphs_def)

lemma replaceSquared_Cons:
  "replaceSquared (c # v) = (if c = 178 then js ''^2'' else [c]) @ replaceSquared v"
  by (simp add: replaceSquared_def)

lemma replacePi_Cons:
  "replacePi (c # v) = (if c = 960 then js ''pi'' else [c]) @ replacePi v"
  by (simp add: replacePi_def)

lemma implicitMul_skip: "\<not> isDigit c \<Longrightarrow> replaceAll matchImplicitMul (c # z) = c # replaceAll matchImplicitMul z"
  by (simp add: matchImplicitMul_def)

lemma parens_skip: "c \<noteq> 41 \<Longrightarrow> replaceAll matchParens (c # z) = c # replaceAll matchParens z"
  by (simp add: matchParens_def)

lemma percent_skip: "\<not> isDigit c \<Longrightarrow> replaceAll matchPercent (c # z) = c # replaceAll matchPercent z"
  by (simp add: matchPercent_def)


lemma parens_split:
  assumes "\<not> isSpace d" "d \<noteq> 40"
  shows "replaceAll matchParens (u @ d # w) =
         replaceAll matchParens u @ replaceAll matchParens (d # w)"
  by (rule replaceAll_append) (simp_all add: matchParens_append assms matchParens_bound)

lemma all_digits_append:
  assumes "dropWhile isDigit t = []"
  shows "takeWhile isDigit (t @ w) = t @ takeWhile isDigit w"
    and "dropWhile isDigit (t @ w) = dropWhile isDigit w"
  using assms by (induction t) (auto split: if_splits)

lemma some_nondigit_append:
  assumes "dropWhile isDigit t \<noteq> []"
  shows "takeWhile isDigit (t @ w) = takeWhile isDigit t"
    and "dropWhile isDigit (t @ w) = dropWhile isDigit t @ w"
  using assms by (induction t) (auto split: if_splits)

lemma inert_no_percent:
  assumes "inert w"
  shows "\<not> (dropWhile isDigit w \<noteq> [] \<and> hd (dropWhile isDigit w) = 37)"
    and "\<not> (dropWhile isDigit w \<noteq> [] \<and> hd (dropWhile isDigit w) = 46)"
  using assms by (auto simp: inert_def split: list.splits)

lemma matchPercent_inert:
  assumes x: "x \<noteq> []" and w: "inert w"
  shows "matchPercent (x @ w) = matchPercent x"
proof (cases "dropWhile isDigit x = []")
  case True
  note a = all_digits_append [OF True, of w]
  from True have "matchPercent x = None"
    by (simp only: matchPercent_unfold if_True if_False simp_thms split: if_splits)
  moreover have "matchPercent (x @ w) = None"
    unfolding matchPercent_unfold a using inert_no_percent [OF w] by (simp only: if_False simp_thms split: if_splits) blast
  ultimately show ?thesis by simp
next
  case False
  note a = some_nondigit_append [OF False, of w]
  from False obtain c t where r: "dropWhile isDigit x = c # t" by (cases "dropWhile isDigit x") auto
  show ?thesis
  proof (cases "c = 46")
    case c: True
    show ?thesis
    proof (cases "dropWhile isDigit t = []")
      case True
      note b = all_digits_append [OF True, of w]
      from inert_no_percent(1) [OF w] c True show ?thesis
        by (auto simp: matchPercent_unfold a r b)
    next
      case False
      note b = some_nondigit_append [OF False, of w]
      from False show ?thesis
        by (simp add: matchPercent_unfold a r b)
    qed
  next
    case False
    then show ?thesis by (simp add: matchPercent_unfold a r)
  qed
qed

lemma percent_split:
  assumes "inert w"
  shows "replaceAll matchPercent (u @ w) = replaceAll matchPercent u @ replaceAll matchPercent w"
  by (rule replaceAll_append) (simp_all add: matchPercent_inert assms matchPercent_bound)

text \<open>From here on the passes are unfolded only where a proof asks for it.\<close>

declare replaceAll.simps [simp del]

lemma digit_facts:
  assumes "isDigit a"
  shows "\<not> isSpace a" "\<not> (isLetter a \<or> a = 960 \<or> a = 40)" "a \<noteq> 40" "a \<noteq> 41" "a \<noteq> 215"
    "a \<noteq> 247" "a \<noteq> 178" "a \<noteq> 960" "a \<noteq> 46" "a \<noteq> 37"
  using assms by (auto simp: isDigit_def isSpace_def isLetter_def)

lemma operand_facts:
  assumes "isLetter b \<or> b = 960 \<or> b = 40"
  shows "\<not> isDigit b" "b \<noteq> 215" "b \<noteq> 247" "b \<noteq> 178" "b \<noteq> 41"
  using assms by (auto simp: isDigit_def isLetter_def)


lemma inert_digit_Cons: "isDigit a \<Longrightarrow> inert z \<Longrightarrow> inert (a # z)"
  by (simp add: inert_def)

lemma percent_lone_digit:
  assumes "isDigit a" "\<not> isDigit c" "c \<noteq> 46" "c \<noteq> 37"
  shows "replaceAll matchPercent (a # c # z) = a # c # replaceAll matchPercent z"
  using assms by (simp add: matchPercent_def replaceAll.simps)

lemma sanitize_digit_operand:
  assumes a: "isDigit a" and b: "isLetter b \<or> b = 960 \<or> b = 40"
  shows "sanitizeExpressionForEval (u @ a # b # v) =
         sanitizeExpressionForEval u @ [a, 42] @ sanitizeExpressionForEval (b # v)"
proof -
  note da = digit_facts [OF a] and ob = operand_facts [OF b]
  let ?u = "replaceSquared (replaceGlyphs u)" and ?v = "replaceSquared (replaceGlyphs v)"
  have pre: "replaceSquared (replaceGlyphs (u @ a # b # v)) = ?u @ a # b # ?v"
    and pre': "replaceSquared (replaceGlyphs (b # v)) = b # ?v"
    using da ob by (simp_all add: replaceGlyphs_append replaceSquared_append replaceGlyphs_Cons
        replaceSquared_Cons)
  let ?X = "replaceAll matchImplicitMul ?u" and ?Z = "replaceAll matchImplicitMul (b # ?v)"
  have p4: "replaceAll matchImplicitMul (?u @ a # b # ?v) = ?X @ a # 42 # ?Z"
    using implicitMul_inserted [OF a b, of ?u ?v] implicitMul_skip [OF ob(1), of ?v] by simp
  have star: "\<not> isSpace 42" "\<not> isDigit 42" by (simp_all add: isSpace_def isDigit_def)
  have p5: "replaceAll matchParens (?X @ a # 42 # ?Z) =
      replaceAll matchParens ?X @ a # 42 # replaceAll matchParens ?Z"
    using parens_split [OF da(1) da(3), of ?X "42 # ?Z"] da(4) by (simp add: parens_skip)
  let ?X' = "replacePi (replaceAll matchParens ?X)" and ?Z' = "replacePi (replaceAll matchParens ?Z)"
  have p6: "replacePi (replaceAll matchParens ?X @ a # 42 # replaceAll matchParens ?Z) =
      ?X' @ a # 42 # ?Z'"
    using da by (simp add: replacePi_append replacePi_Cons)
  have "inert (a # 42 # ?Z')" using a star by (simp add: inert_def)
  then have p7: "replaceAll matchPercent (?X' @ a # 42 # ?Z') =
      replaceAll matchPercent ?X' @ a # 42 # replaceAll matchPercent ?Z'"
    using percent_split [of "a # 42 # ?Z'" ?X'] percent_lone_digit [OF a star(2), of ?Z'] by simp
  show ?thesis
    unfolding sanitize_passes pre pre' p4 p5 p6 p7 by simp
qed



lemma sanitize_pi_first:
  "sanitizeExpressionForEval (960 # v) = js ''pi'' @ sanitizeExpressionForEval v"
proof -
  have nd: "\<not> isDigit 960" "\<not> isDigit 112" "\<not> isDigit 105" by (simp_all add: isDigit_def)
  show ?thesis
    using nd
    by (simp add: sanitize_passes replaceGlyphs_Cons replaceSquared_Cons implicitMul_skip
        parens_skip replacePi_Cons percent_skip js_def)
qed








lemma digits_pass_simple:
  assumes "list_all isDigit ds"
  shows "replaceGlyphs (ds @ z) = ds @ replaceGlyphs z"
    and "replaceSquared (ds @ z) = ds @ replaceSquared z"
    and "replacePi (ds @ z) = ds @ replacePi z"
    and "replaceAll matchParens (ds @ z) = ds @ replaceAll matchParens z"
  using assms
  by (induction ds)
     (auto simp: replaceGlyphs_Cons replaceSquared_Cons replacePi_Cons parens_skip
        dest: digit_facts)

lemma implicitMul_no_operand:
  assumes "\<not> isSpace h" "\<not> (isLetter h \<or> h = 960 \<or> h = 40)"
  shows "replaceAll matchImplicitMul (d # h # y) = d # replaceAll matchImplicitMul (h # y)"
  using assms by (simp add: matchImplicitMul_def replaceAll.simps)

lemma digits_pass_implicitMul:
  assumes "list_all isDigit ds" "\<not> isSpace c" "\<not> (isLetter c \<or> c = 960 \<or> c = 40)"
  shows "replaceAll matchImplicitMul (ds @ c # z) = ds @ replaceAll matchImplicitMul (c # z)"
  using assms(1)
proof (induction ds)
  case Nil
  show ?case by simp
next
  case (Cons d ds)
  then have ih: "replaceAll matchImplicitMul (ds @ c # z) = ds @ replaceAll matchImplicitMul (c # z)"
    by simp
  show ?case
  proof (cases ds)
    case Nil
    with implicitMul_no_operand [OF assms(2,3), of d z] show ?thesis by simp
  next
    case (Cons e es)
    with Cons.prems have e: "isDigit e" by simp
    from implicitMul_no_operand [OF digit_facts(1,2) [OF e], of d "es @ c # z"] ih Cons
    show ?thesis by simp
  qed
qed

lemma sanitize_percent_literal:
  assumes ds: "ds \<noteq> []" "list_all isDigit ds"
  shows "sanitizeExpressionForEval (ds @ 37 # v) =
         js ''('' @ ds @ js ''/100)'' @ sanitizeExpressionForEval v"
proof -
  have pc: "\<not> isSpace 37" "\<not> (isLetter 37 \<or> (37::nat) = 960 \<or> (37::nat) = 40)" "\<not> isDigit 37"
    by (simp_all add: isSpace_def isLetter_def isDigit_def)
  have "sanitizeExpressionForEval (ds @ 37 # v) =
      replaceAll matchPercent (ds @ 37 # replacePi (replaceAll matchParens
        (replaceAll matchImplicitMul (replaceSquared (replaceGlyphs v)))))"
    using pc
    by (simp add: sanitize_passes digits_pass_simple [OF ds(2)] replaceGlyphs_Cons
        replaceSquared_Cons digits_pass_implicitMul [OF ds(2) pc(1,2)] implicitMul_skip
        parens_skip replacePi_Cons)
  also have "\<dots> = js ''('' @ ds @ js ''/100)'' @ sanitizeExpressionForEval v"
    using percent_rewritten [OF _ ds, of "[]"] by (simp add: sanitize_passes replaceAll.simps)
  finally show ?thesis .
qed

lemma sanitize_percent_decimal:
  assumes ds: "ds \<noteq> []" "list_all isDigit ds" and fs: "fs \<noteq> []" "list_all isDigit fs"
  shows "sanitizeExpressionForEval (ds @ 46 # fs @ 37 # v) =
         js ''('' @ ds @ [46] @ fs @ js ''/100)'' @ sanitizeExpressionForEval v"
proof -
  have pc: "\<not> isSpace 37" "\<not> (isLetter 37 \<or> (37::nat) = 960 \<or> (37::nat) = 40)" "\<not> isDigit 37"
    "\<not> isSpace 46" "\<not> (isLetter 46 \<or> (46::nat) = 960 \<or> (46::nat) = 40)" "\<not> isDigit 46"
    by (simp_all add: isSpace_def isLetter_def isDigit_def)
  have "sanitizeExpressionForEval (ds @ 46 # fs @ 37 # v) =
      replaceAll matchPercent (ds @ 46 # fs @ 37 # replacePi (replaceAll matchParens
        (replaceAll matchImplicitMul (replaceSquared (replaceGlyphs v)))))"
    using pc
    by (simp add: sanitize_passes digits_pass_simple [OF ds(2)] digits_pass_simple [OF fs(2)]
        replaceGlyphs_Cons replaceSquared_Cons digits_pass_implicitMul [OF ds(2) pc(4,5)]
        digits_pass_implicitMul [OF fs(2) pc(1,2)] implicitMul_skip parens_skip replacePi_Cons)
  also have "\<dots> = js ''('' @ ds @ [46] @ fs @ js ''/100)'' @ sanitizeExpressionForEval v"
    using percent_decimal_rewritten [OF _ ds fs, of "[]"]
    by (simp add: sanitize_passes replaceAll.simps)
  finally show ?thesis .
qed




































end
